theory Spec2Isabelle
  imports Main "HOL-Library.AList"
begin

section \<open>Strings and numbers of the JavaScript runtime\<close>

text \<open>
  Strings are sequences of bytes (the UTF-8 rendering of the JavaScript string); the
  keywords searched for and the digits of a session identifier are ASCII, and no byte of a
  multi-byte UTF-8 sequence is an ASCII byte. Numbers that the program computes with are
  millisecond clock readings and their differences: integers far below \<open>2 ^ 53\<close>, on which
  double arithmetic is exact, so they are modelled as \<open>nat\<close> and \<open>int\<close>.
\<close>

text \<open>
  \<^verbatim>\<open>String.prototype.toLowerCase\<close> follows the case tables of the runtime, which are not part
  of the repository; it also maps letters outside ASCII, some of them onto ASCII letters
  (U+212A KELVIN SIGN onto \<^verbatim>\<open>k\<close>). The handler below therefore takes the lowercasing
  function of the runtime as a parameter, and what is proved holds for every such
  function. On a string of ASCII characters the function of the runtime is
  \<open>toLowerCase_ascii\<close>, which the concrete examples use.
\<close>

type_synonym lowering = "string \<Rightarrow> string"

definition lower_char :: "char \<Rightarrow> char" where
  "lower_char c =
     (let n = (of_char c :: nat) in if 65 \<le> n \<and> n \<le> 90 then char_of (n + 32) else c)"

definition toLowerCase_ascii :: lowering where
  "toLowerCase_ascii s = map lower_char s"

text \<open>\<^verbatim>\<open>String.prototype.includes\<close>: does the search string occur at some position? (\<open>includes\<close> is a keyword of the theory language, hence the prefix.)\<close>

fun startsWith :: "string \<Rightarrow> string \<Rightarrow> bool" where
  "startsWith s [] = True"
| "startsWith [] (p # ps) = False"
| "startsWith (c # cs) (p # ps) = (c = p \<and> startsWith cs ps)"

fun str_includes :: "string \<Rightarrow> string \<Rightarrow> bool" where
  "str_includes [] search = (search = [])"
| "str_includes (c # cs) search = (startsWith (c # cs) search \<or> str_includes cs search)"

text \<open>\<^verbatim>\<open>Number.prototype.toString\<close> on a non-negative integer: its decimal digits.\<close>

definition digit_char :: "nat \<Rightarrow> char" where
  "digit_char d = char_of (48 + d)"

fun toString :: "nat \<Rightarrow> string" where
  "toString n = (if n < 10 then [digit_char n] else toString (n div 10) @ [digit_char (n mod 10)])"

declare toString.simps [simp del]

text \<open>
  \<^verbatim>\<open>parseInt(string)\<close> with no radix: leading white space is skipped, a sign is read, the
  prefix \<^verbatim>\<open>0x\<close> selects radix 16, and the longest prefix of digits of the radix is the
  number; with no digit the result is \<^verbatim>\<open>NaN\<close>, here \<open>None\<close>. White space is the ASCII white
  space.
\<close>

definition is_space :: "char \<Rightarrow> bool" where
  "is_space c = ((of_char c :: nat) \<in> {9, 10, 11, 12, 13, 32})"

definition digit_value :: "char \<Rightarrow> nat option" where
  "digit_value c =
     (let n = (of_char c :: nat) in
      if 48 \<le> n \<and> n \<le> 57 then Some (n - 48)
      else if 97 \<le> n \<and> n \<le> 122 then Some (n - 87)
      else if 65 \<le> n \<and> n \<le> 90 then Some (n - 55)
      else None)"

definition radix_digit :: "nat \<Rightarrow> char \<Rightarrow> nat option" where
  "radix_digit R c =
     (case digit_value c of None \<Rightarrow> None | Some d \<Rightarrow> if d < R then Some d else None)"

fun digits_prefix :: "nat \<Rightarrow> string \<Rightarrow> nat list" where
  "digits_prefix R [] = []"
| "digits_prefix R (c # cs) =
     (case radix_digit R c of None \<Rightarrow> [] | Some d \<Rightarrow> d # digits_prefix R cs)"

definition digits_number :: "nat \<Rightarrow> nat list \<Rightarrow> nat" where
  "digits_number R ds = foldl (\<lambda>a d. a * R + d) 0 ds"

definition strip_sign :: "string \<Rightarrow> int \<times> string" where
  "strip_sign s =
     (case s of
        [] \<Rightarrow> (1, s)
      | c # r \<Rightarrow> if c = CHR ''-'' then (- 1, r) else if c = CHR ''+'' then (1, r) else (1, s))"

definition strip_radix :: "string \<Rightarrow> nat \<times> string" where
  "strip_radix s =
     (case s of
        a # b # r \<Rightarrow>
          if a = CHR ''0'' \<and> (b = CHR ''x'' \<or> b = CHR ''X'') then (16, r) else (10, s)
      | _ \<Rightarrow> (10, s))"

definition parseInt :: "string \<Rightarrow> int option" where
  "parseInt str =
     (let (sign, s1) = strip_sign (dropWhile is_space str);
          (R, s2) = strip_radix s1;
          Z = digits_prefix R s2
      in if Z = [] then None else Some (sign * int (digits_number R Z)))"


section \<open>The clock\<close>

text \<open>
  \<^verbatim>\<open>Date.now()\<close> and \<^verbatim>\<open>new Date()\<close> read the millisecond clock. A handler reads it several
  times; \<open>clk k\<close> is the reading of its \<open>k\<close>-th read (counted from 0) while one request is
  handled. \<^verbatim>\<open>toISOString()\<close> renders a reading injectively; a timestamp is kept as the
  reading itself.
\<close>

type_synonym clock = "nat \<Rightarrow> nat"

section \<open>The conversation proxy\<close>

text \<open>
  The chat object stored per session is a \<^verbatim>\<open>ChatSession\<close> of the provider's client library,
  whose code is not part of the repository. Its state is the accumulated turn history; what
  the external model answers is an input of the call.
\<close>

datatype role = User | Assistant

datatype turn = Turn (turn_role: role) (turn_text: string)

record chat =
  history :: "turn list"

datatype error = ProviderError

datatype stream_result =
    StreamCompletes "string list"  \<comment> \<open>the chunks, then the end of the stream\<close>
  | StreamBreaks "string list"     \<comment> \<open>the chunks delivered before the stream fails\<close>
  | StreamRefused                  \<comment> \<open>the call fails before any stream is returned\<close>

record provider =
  reply_outcome :: "error + string"
  stream_outcome :: stream_result

text \<open>
  Modelled from the spec: \<^verbatim>\<open>model.startChat\<close> of the provider library, the empty
  conversation that \<open>create\<close> binds to a new identifier (section 4.1).
\<close>

definition startChat :: chat where
  "startChat = \<lparr>history = []\<rparr>"

text \<open>
  Modelled from the spec: \<^verbatim>\<open>chat.sendMessage\<close> of the provider library, the operation
  \<open>sendSync\<close> of section 4.2: it appends a user turn, invokes the external model, appends
  the assistant reply and returns it; it fails with \<open>ProviderError\<close> if the external call
  fails. The specification does not say that a failing call takes the user turn back, so
  it stays; no claim below depends on this choice.
\<close>

definition sendMessage :: "chat \<Rightarrow> string \<Rightarrow> error + string \<Rightarrow> (error + string) \<times> chat" where
  "sendMessage c msg outcome =
     (let c1 = c\<lparr>history := history c @ [Turn User msg]\<rparr> in
      case outcome of
        Inl e \<Rightarrow> (Inl e, c1)
      | Inr reply \<Rightarrow> (Inr reply, c1\<lparr>history := history c1 @ [Turn Assistant reply]\<rparr>))"

text \<open>
  Modelled from the spec: \<^verbatim>\<open>chat.sendMessageStream\<close> of the provider library, the operation
  \<open>sendStream\<close> of section 4.2: it appends a user turn, yields the chunks as they arrive,
  and on stream completion appends the concatenated full text as the assistant turn; if the
  stream is interrupted the partial text is not appended (the user turn stays, as for
  \<open>sendMessage\<close>). The result is the stream as its consumer sees it, and the conversation
  once the stream has been consumed.
\<close>

definition sendMessageStream :: "chat \<Rightarrow> string \<Rightarrow> stream_result \<Rightarrow> stream_result \<times> chat" where
  "sendMessageStream c msg outcome =
     (let c1 = c\<lparr>history := history c @ [Turn User msg]\<rparr> in
      case outcome of
        StreamCompletes chunks \<Rightarrow>
          (outcome, c1\<lparr>history := history c1 @ [Turn Assistant (concat chunks)]\<rparr>)
      | StreamBreaks chunks \<Rightarrow> (outcome, c1)
      | StreamRefused \<Rightarrow> (outcome, c1))"

text \<open>
  Modelled from the spec: \<^verbatim>\<open>chat.getHistory\<close> of the provider library, the operation
  \<open>history\<close> of section 4.2: the accumulated turns, read-only.
\<close>

definition getHistory :: "chat \<Rightarrow> turn list" where
  "getHistory c = history c"

section \<open>The session store\<close>

text \<open>
  \<^verbatim>\<open>chatSessions\<close> is a \<^verbatim>\<open>Map\<close> from session identifiers to chat objects. It is an association
  list in insertion order: \<^verbatim>\<open>set\<close> replaces the value of a present key in place and appends
  an absent one (\<open>AList.update\<close>), \<^verbatim>\<open>delete\<close> removes the key (\<open>AList.delete\<close>), \<^verbatim>\<open>get\<close> is
  \<open>map_of\<close>. A chat object is shared by reference between the map and the handler that
  mutates it, so a handler stores the mutated conversation back under its key. Requests
  are handled one at a time.
\<close>

type_synonym store = "(string \<times> chat) list"

section \<open>Responses\<close>

record message =
  msg_id :: nat
  msg_text :: string
  msg_sender :: string
  msg_timestamp :: nat

datatype frame =
    ChunkFrame string string     \<comment> \<open>\<^verbatim>\<open>{type: 'chunk', text, sessionId}\<close>\<close>
  | CompleteFrame string string  \<comment> \<open>\<^verbatim>\<open>{type: 'complete', fullText, sessionId}\<close>\<close>
  | ErrorFrame string string     \<comment> \<open>\<^verbatim>\<open>{type: 'error', error, sessionId}\<close>\<close>

datatype response =
    JsonError nat string         \<comment> \<open>\<^verbatim>\<open>res.status(n).json({error})\<close>\<close>
  | JsonReply message bool       \<comment> \<open>\<^verbatim>\<open>res.json({message})\<close>; the flag: \<^verbatim>\<open>isOffline: true\<close> is present\<close>
  | JsonStarted string message   \<comment> \<open>\<^verbatim>\<open>res.json({sessionId, message})\<close>\<close>
  | JsonHistory "message list"   \<comment> \<open>\<^verbatim>\<open>res.json({history})\<close>\<close>
  | JsonCleared string           \<comment> \<open>\<^verbatim>\<open>res.json({message})\<close> of the delete route\<close>
  | EventStream "frame list"     \<comment> \<open>\<^verbatim>\<open>res.writeHead(200, text/event-stream)\<close>, the frames written, \<^verbatim>\<open>res.end()\<close>\<close>

fun status :: "response \<Rightarrow> nat" where
  "status (JsonError n e) = n"
| "status r = 200"

section \<open>Starting a session\<close>

definition welcomeMessage :: string where
  "welcomeMessage =
     ''Hi! I'm your AI fitness assistant powered by Google Gemini. Ask me anything about workouts, nutrition, or fitness! ''
     @ [CHR 0xF0, CHR 0x9F, CHR 0x92, CHR 0xAA]"

definition start_session :: "store \<Rightarrow> clock \<Rightarrow> response \<times> store" where
  "start_session sessions clk =
     (let sessionId = toString (clk 0);
          chat = startChat;
          sessions' = AList.update sessionId chat sessions
      in (JsonStarted sessionId
            \<lparr>msg_id = clk 1, msg_text = welcomeMessage, msg_sender = ''bot'',
             msg_timestamp = clk 2\<rparr>,
          sessions'))"

section \<open>Sending a message\<close>

record request =
  sessionId :: "string option"  \<comment> \<open>\<open>None\<close>: the field is missing\<close>
  message :: "string option"
  stream :: bool                \<comment> \<open>missing is \<open>False\<close>\<close>

text \<open>The negation \<^verbatim>\<open>!x\<close> of a string field: a missing field and the empty string are falsy.\<close>

definition falsy :: "string option \<Rightarrow> bool" where
  "falsy x = (case x of None \<Rightarrow> True | Some s \<Rightarrow> s = [])"

text \<open>The \<^verbatim>\<open>for await\<close> loop over the chunks of the provider stream.\<close>

fun relay_chunks :: "string \<Rightarrow> string list \<Rightarrow> string \<Rightarrow> frame list \<Rightarrow> string \<times> frame list" where
  "relay_chunks sid [] fullResponse written = (fullResponse, written)"
| "relay_chunks sid (chunkText # rest) fullResponse written =
     relay_chunks sid rest (fullResponse @ chunkText) (written @ [ChunkFrame chunkText sid])"

text \<open>
  The inner \<^verbatim>\<open>try\<close> of the streaming branch, entered after the stream headers are written:
  the frames written until \<^verbatim>\<open>res.end()\<close>.
\<close>

fun relay :: "string \<Rightarrow> stream_result \<Rightarrow> frame list" where
  "relay sid StreamRefused = [ErrorFrame ''Streaming failed'' sid]"
| "relay sid (StreamBreaks chunks) =
     (let (fullResponse, written) = relay_chunks sid chunks [] []
      in written @ [ErrorFrame ''Streaming failed'' sid])"
| "relay sid (StreamCompletes chunks) =
     (let (fullResponse, written) = relay_chunks sid chunks [] []
      in written @ [CompleteFrame fullResponse sid])"

definition fallback_workout :: string where
  "fallback_workout =
     ''Quick workout tip: Try 10 push-ups, 15 squats, 30-sec plank. Repeat 3x! ''
     @ [CHR 0xF0, CHR 0x9F, CHR 0x92, CHR 0xAA]"

definition fallback_diet :: string where
  "fallback_diet =
     ''Quick nutrition tip: Fill half your plate with veggies, quarter with protein, quarter with complex carbs! ''
     @ [CHR 0xF0, CHR 0x9F, CHR 0xA5, CHR 0x97]"

definition fallback_motivation :: string where
  "fallback_motivation =
     ''You're already winning by asking! '' @ [CHR 0xF0, CHR 0x9F, CHR 0x8F, CHR 0x86]
     @ '' Every small step counts. Keep going, champion!''"

definition fallback_default :: string where
  "fallback_default =
     ''I'm having trouble connecting right now. Please try again! ''
     @ [CHR 0xF0, CHR 0x9F, CHR 0xA4, CHR 0x96]"

definition fallbackText :: "lowering \<Rightarrow> string option \<Rightarrow> string" where
  "fallbackText toLowerCase msg =
     (let lowerMessage = (case msg of None \<Rightarrow> [] | Some m \<Rightarrow> toLowerCase m) in
      if str_includes lowerMessage ''workout'' \<or> str_includes lowerMessage ''exercise''
      then fallback_workout
      else if str_includes lowerMessage ''diet'' \<or> str_includes lowerMessage ''nutrition''
      then fallback_diet
      else if str_includes lowerMessage ''motivation'' then fallback_motivation
      else fallback_default)"

text \<open>The outer \<^verbatim>\<open>catch\<close>: the fallback response if the provider call fails.\<close>

definition offline_reply :: "lowering \<Rightarrow> string option \<Rightarrow> clock \<Rightarrow> response" where
  "offline_reply toLowerCase msg clk =
     JsonReply
       \<lparr>msg_id = clk 0, msg_text = fallbackText toLowerCase msg @ '' (Offline mode)'',
        msg_sender = ''bot'', msg_timestamp = clk 1\<rparr>
       True"

definition send_message ::
  "lowering \<Rightarrow> store \<Rightarrow> request \<Rightarrow> provider \<Rightarrow> clock \<Rightarrow> response \<times> store" where
  "send_message toLowerCase sessions req p clk =
     (if falsy (sessionId req) \<or> falsy (message req)
      then (JsonError 400 ''Session ID and message are required'', sessions)
      else
        (case (sessionId req, message req) of
           (Some sid, Some msg) \<Rightarrow>
             (case map_of sessions sid of
                None \<Rightarrow>
                  (JsonError 404 ''Chat session not found. Please start a new session.'',
                   sessions)
              | Some chat \<Rightarrow>
                  if stream req then
                    (let (result, chat') = sendMessageStream chat msg (stream_outcome p)
                     in (EventStream (relay sid result), AList.update sid chat' sessions))
                  else
                    (case sendMessage chat msg (reply_outcome p) of
                       (Inr botReply, chat') \<Rightarrow>
                         (JsonReply
                            \<lparr>msg_id = clk 0, msg_text = botReply, msg_sender = ''bot'',
                             msg_timestamp = clk 1\<rparr>
                            False,
                          AList.update sid chat' sessions)
                     | (Inl e, chat') \<Rightarrow>
                         (offline_reply toLowerCase (message req) clk, AList.update sid chat' sessions)))
         | _ \<Rightarrow> (JsonError 400 ''Session ID and message are required'', sessions)))"

section \<open>Reading the history, deleting a session, the hourly cleanup\<close>

definition history_item :: "clock \<Rightarrow> nat \<times> turn \<Rightarrow> message" where
  "history_item clk = (\<lambda>(index, item).
     \<lparr>msg_id = index, msg_text = turn_text item,
      msg_sender = (if turn_role item = User then ''user'' else ''bot''),
      msg_timestamp = clk index\<rparr>)"

definition get_history :: "store \<Rightarrow> string \<Rightarrow> clock \<Rightarrow> response" where
  "get_history sessions sid clk =
     (case map_of sessions sid of
        None \<Rightarrow> JsonError 404 ''Chat session not found''
      | Some chat \<Rightarrow> JsonHistory (map (history_item clk) (enumerate 0 (getHistory chat))))"

definition delete_session :: "store \<Rightarrow> string \<Rightarrow> response \<times> store" where
  "delete_session sessions sid =
     (if map_of sessions sid \<noteq> None
      then (JsonCleared ''Chat session cleared successfully'', AList.delete sid sessions)
      else (JsonError 404 ''Chat session not found'', sessions))"

definition oneHour :: int where
  "oneHour = 60 * 60 * 1000"

text \<open>
  \<^verbatim>\<open>now - parseInt(sessionId) > oneHour\<close>; the comparison is false when the identifier
  parses to \<^verbatim>\<open>NaN\<close>.
\<close>

definition expired :: "nat \<Rightarrow> string \<Rightarrow> bool" where
  "expired now sid =
     (case parseInt sid of None \<Rightarrow> False | Some created \<Rightarrow> int now - created > oneHour)"

text \<open>
  The loop over the entries of the map. Deleting the entry under the iterator leaves the
  iteration over the remaining entries unchanged, and nothing is inserted, so the loop
  visits the keys that the map has when it starts.
\<close>

fun cleanup_loop :: "nat \<Rightarrow> string list \<Rightarrow> store \<Rightarrow> store" where
  "cleanup_loop now [] sessions = sessions"
| "cleanup_loop now (sid # rest) sessions =
     (if expired now sid then cleanup_loop now rest (AList.delete sid sessions)
      else cleanup_loop now rest sessions)"

definition cleanup :: "nat \<Rightarrow> store \<Rightarrow> store" where
  "cleanup now sessions = cleanup_loop now (map fst sessions) sessions"

section \<open>A server run\<close>

datatype op =
    Start clock
  | Send request provider clock
  | History string clock
  | Clear string
  | Cleanup nat  \<comment> \<open>the timer fires; \<^verbatim>\<open>Date.now()\<close> reads the given time\<close>

fun handle :: "lowering \<Rightarrow> store \<Rightarrow> op \<Rightarrow> response list \<times> store" where
  "handle toLowerCase s (Start clk) = (let (r, s') = start_session s clk in ([r], s'))"
| "handle toLowerCase s (Send req p clk) =
     (let (r, s') = send_message toLowerCase s req p clk in ([r], s'))"
| "handle toLowerCase s (History sid clk) = ([get_history s sid clk], s)"
| "handle toLowerCase s (Clear sid) = (let (r, s') = delete_session s sid in ([r], s'))"
| "handle toLowerCase s (Cleanup now) = ([], cleanup now s)"

fun run :: "lowering \<Rightarrow> store \<Rightarrow> op list \<Rightarrow> response list \<times> store" where
  "run toLowerCase s [] = ([], s)"
| "run toLowerCase s (x # xs) =
     (let (rs, s1) = handle toLowerCase s x; (rs', s2) = run toLowerCase s1 xs
      in (rs @ rs', s2))"

text \<open>The clock readings from which the start requests of a run derive their identifiers.\<close>

fun start_readings :: "op list \<Rightarrow> nat list" where
  "start_readings [] = []"
| "start_readings (Start clk # xs) = clk 0 # start_readings xs"
| "start_readings (x # xs) = start_readings xs"

text \<open>The session identifiers that a list of responses issues.\<close>

fun issued :: "response list \<Rightarrow> string list" where
  "issued [] = []"
| "issued (JsonStarted sid m # rs) = sid # issued rs"
| "issued (r # rs) = issued rs"

section \<open>Observations used in the statements\<close>

text \<open>Two concrete clocks: one that stands still while a request is handled, one that
  advances by a millisecond between two reads.\<close>

definition frozen_clock :: "nat \<Rightarrow> clock" where
  "frozen_clock t k = t"

definition ticking_clock :: "nat \<Rightarrow> clock" where
  "ticking_clock t k = t + k"

text \<open>The texts of the chunk frames and of the complete frames of a stream, in emission order.\<close>

fun chunk_texts :: "frame list \<Rightarrow> string list" where
  "chunk_texts [] = []"
| "chunk_texts (ChunkFrame t sid # fs) = t # chunk_texts fs"
| "chunk_texts (f # fs) = chunk_texts fs"

fun complete_texts :: "frame list \<Rightarrow> string list" where
  "complete_texts [] = []"
| "complete_texts (CompleteFrame t sid # fs) = t # complete_texts fs"
| "complete_texts (f # fs) = complete_texts fs"

fun stream_fails :: "stream_result \<Rightarrow> bool" where
  "stream_fails (StreamCompletes chunks) = False"
| "stream_fails (StreamBreaks chunks) = True"
| "stream_fails StreamRefused = True"

definition assistant_turns :: "chat \<Rightarrow> turn list" where
  "assistant_turns c = filter (\<lambda>t. turn_role t = Assistant) (getHistory c)"

fun reply_text :: "response \<Rightarrow> string option" where
  "reply_text (JsonReply m offline) = Some (msg_text m)"
| "reply_text r = None"

text \<open>
  A sequence of non-streaming send-message requests on one session whose provider calls
  succeed: each call is the text sent, the provider's reply and the clock of the request.
\<close>

definition sync_sends :: "string \<Rightarrow> stream_result \<Rightarrow> (string \<times> string \<times> clock) list \<Rightarrow> op list" where
  "sync_sends sid unused calls =
     map (\<lambda>(msg, reply, clk).
            Send \<lparr>sessionId = Some sid, message = Some msg, stream = False\<rparr>
                 \<lparr>reply_outcome = Inr reply, stream_outcome = unused\<rparr> clk)
         calls"

text \<open>
  A lowering that, like the one of the runtime, also maps U+212A KELVIN SIGN (the bytes
  \<^verbatim>\<open>E2 84 AA\<close>) onto \<^verbatim>\<open>k\<close>; it stands for the runtime's function on messages whose only
  character outside ASCII is that sign.
\<close>

fun toLowerCase_kelvin :: lowering where
  "toLowerCase_kelvin (a # b # c # s) =
     (if a = CHR 0xE2 \<and> b = CHR 0x84 \<and> c = CHR 0xAA then CHR ''k'' # toLowerCase_kelvin s
      else lower_char a # toLowerCase_kelvin (b # c # s))"
| "toLowerCase_kelvin (a # s) = lower_char a # toLowerCase_kelvin s"
| "toLowerCase_kelvin [] = []"

text \<open>The sender tag and the text under which a turn is returned by the history route.\<close>

definition shown :: "turn \<Rightarrow> string \<times> string" where
  "shown t = (if turn_role t = User then ''user'' else ''bot'', turn_text t)"

section \<open>Properties of the runtime functions\<close>

lemma startsWith_iff: "startsWith s p \<longleftrightarrow> (\<exists>q. s = p @ q)"
  by (induction s p rule: startsWith.induct) auto

lemma str_includes_iff: "str_includes s sub \<longleftrightarrow> (\<exists>p q. s = p @ sub @ q)"
proof (induction s)
  case Nil
  then show ?case by auto
next
  case (Cons c cs)
  show ?case
  proof
    assume "str_includes (c # cs) sub"
    then consider "startsWith (c # cs) sub" | "str_includes cs sub" by auto
    then show "\<exists>p q. c # cs = p @ sub @ q"
    proof cases
      case 1
      then obtain q where "c # cs = sub @ q" by (auto simp: startsWith_iff)
      then have "c # cs = [] @ sub @ q" by simp
      then show ?thesis by blast
    next
      case 2
      then obtain p q where "cs = p @ sub @ q" using Cons.IH by auto
      then have "c # cs = (c # p) @ sub @ q" by simp
      then show ?thesis by blast
    qed
  next
    assume "\<exists>p q. c # cs = p @ sub @ q"
    then obtain p q where pq: "c # cs = p @ sub @ q" by blast
    show "str_includes (c # cs) sub"
    proof (cases p)
      case Nil
      with pq have "startsWith (c # cs) sub" by (auto simp: startsWith_iff)
      then show ?thesis by simp
    next
      case (Cons a p')
      with pq have "cs = p' @ sub @ q" by simp
      then have "str_includes cs sub" using Cons.IH by blast
      then show ?thesis by simp
    qed
  qed
qed

lemma of_char_digit_char: "d < 10 \<Longrightarrow> (of_char (digit_char d) :: nat) = 48 + d"
  by (simp add: digit_char_def)

lemma radix_digit_digit_char: "d < 10 \<Longrightarrow> radix_digit 10 (digit_char d) = Some d"
  by (simp add: radix_digit_def digit_value_def of_char_digit_char)

lemma digits_prefix_append:
  "\<forall>c\<in>set xs. radix_digit R c \<noteq> None \<Longrightarrow>
   digits_prefix R (xs @ ys) = digits_prefix R xs @ digits_prefix R ys"
  by (induction xs) (auto split: option.splits)

lemma toString_chars: "c \<in> set (toString n) \<Longrightarrow> \<exists>d<10. c = digit_char d"
proof (induction n rule: toString.induct)
  case (1 n)
  show ?case
  proof (cases "n < 10")
    case True
    with "1.prems" show ?thesis by (auto simp: toString.simps [of n])
  next
    case False
    with "1.prems" have "c \<in> set (toString (n div 10)) \<or> c = digit_char (n mod 10)"
      by (auto simp: toString.simps [of n])
    then show ?thesis
    proof
      assume "c \<in> set (toString (n div 10))"
      then show ?thesis using "1.IH" False by simp
    next
      assume "c = digit_char (n mod 10)"
      moreover have "n mod 10 < 10" by simp
      ultimately show ?thesis by blast
    qed
  qed
qed

lemma toString_not_Nil: "toString n \<noteq> []"
  by (simp add: toString.simps [of n])

lemma digits_number_snoc: "digits_number R (ds @ [d]) = digits_number R ds * R + d"
  by (simp add: digits_number_def)

lemma digits_prefix_toString_not_Nil: "digits_prefix 10 (toString n) \<noteq> []"
proof -
  obtain c cs where cs: "toString n = c # cs"
    using toString_not_Nil [of n] by (cases "toString n") auto
  then have "c \<in> set (toString n)" by simp
  then obtain d where "d < 10" "c = digit_char d" using toString_chars by blast
  then show ?thesis using cs by (simp add: radix_digit_digit_char)
qed

lemma digits_number_toString: "digits_number 10 (digits_prefix 10 (toString n)) = n"
proof (induction n rule: toString.induct)
  case (1 n)
  show ?case
  proof (cases "n < 10")
    case True
    then show ?thesis
      by (simp add: toString.simps [of n] radix_digit_digit_char digits_number_def)
  next
    case False
    have all: "\<forall>c\<in>set (toString (n div 10)). radix_digit 10 c \<noteq> None"
      using toString_chars radix_digit_digit_char by fastforce
    have "digits_prefix 10 (toString n)
            = digits_prefix 10 (toString (n div 10)) @ [n mod 10]"
      using False
      by (simp add: toString.simps [of n] digits_prefix_append [OF all] radix_digit_digit_char)
    then show ?thesis using "1.IH" False by (simp add: digits_number_snoc)
  qed
qed

lemma digit_char_plain:
  assumes "d < 10"
  shows "\<not> is_space (digit_char d)" "digit_char d \<noteq> CHR ''-''" "digit_char d \<noteq> CHR ''+''"
    "digit_char d \<noteq> CHR ''x''" "digit_char d \<noteq> CHR ''X''"
  using assms by (auto simp: is_space_def digit_char_def char_of_eq_iff take_bit_eq_mod)

lemma parseInt_toString: "parseInt (toString n) = Some (int n)"
proof -
  obtain c cs where cs: "toString n = c # cs"
    using toString_not_Nil [of n] by (cases "toString n") auto
  then have "c \<in> set (toString n)" by simp
  then obtain d where d: "d < 10" "c = digit_char d" using toString_chars by blast
  have drop: "dropWhile is_space (toString n) = toString n"
    using cs d digit_char_plain(1) by simp
  have sign: "strip_sign (toString n) = (1, toString n)"
    using cs d digit_char_plain(2,3) by (simp add: strip_sign_def)
  have radix: "strip_radix (toString n) = (10, toString n)"
  proof (cases cs)
    case Nil
    then show ?thesis using cs by (simp add: strip_radix_def)
  next
    case (Cons b r)
    then have "b \<in> set (toString n)" using cs by simp
    then obtain e where "e < 10" "b = digit_char e" using toString_chars by blast
    then have "b \<noteq> CHR ''x''" "b \<noteq> CHR ''X''" using digit_char_plain(4,5) by auto
    then show ?thesis using cs Cons by (simp add: strip_radix_def)
  qed
  show ?thesis
    by (simp add: parseInt_def drop sign radix digits_prefix_toString_not_Nil
        digits_number_toString)
qed

lemma toString_inj: "toString m = toString n \<Longrightarrow> m = n"
proof -
  assume "toString m = toString n"
  then have "parseInt (toString m) = parseInt (toString n)" by simp
  then show "m = n" by (simp add: parseInt_toString)
qed

subsection \<open>The handler, case by case\<close>

lemma send_message_missing:
  "falsy (sessionId req) \<or> falsy (message req) \<Longrightarrow>
   send_message toLowerCase s req p clk = (JsonError 400 ''Session ID and message are required'', s)"
  by (simp add: send_message_def)

lemma send_message_not_found:
  "sid \<noteq> [] \<Longrightarrow> msg \<noteq> [] \<Longrightarrow> map_of s sid = None \<Longrightarrow>
   send_message toLowerCase s \<lparr>sessionId = Some sid, message = Some msg, stream = st\<rparr> p clk
     = (JsonError 404 ''Chat session not found. Please start a new session.'', s)"
  by (simp add: send_message_def falsy_def)

lemma send_message_stream:
  "sid \<noteq> [] \<Longrightarrow> msg \<noteq> [] \<Longrightarrow> map_of s sid = Some c \<Longrightarrow>
   send_message toLowerCase s \<lparr>sessionId = Some sid, message = Some msg, stream = True\<rparr> p clk
     = (EventStream (relay sid (stream_outcome p)),
        AList.update sid (snd (sendMessageStream c msg (stream_outcome p))) s)"
  by (simp add: send_message_def falsy_def sendMessageStream_def Let_def
      split: stream_result.splits)

lemma send_message_reply:
  "sid \<noteq> [] \<Longrightarrow> msg \<noteq> [] \<Longrightarrow> map_of s sid = Some c \<Longrightarrow> reply_outcome p = Inr reply \<Longrightarrow>
   send_message toLowerCase s \<lparr>sessionId = Some sid, message = Some msg, stream = False\<rparr> p clk
     = (JsonReply \<lparr>msg_id = clk 0, msg_text = reply, msg_sender = ''bot'',
                   msg_timestamp = clk 1\<rparr> False,
        AList.update sid
          (c\<lparr>history := history c @ [Turn User msg, Turn Assistant reply]\<rparr>) s)"
  by (simp add: send_message_def falsy_def sendMessage_def Let_def)

lemma send_message_offline:
  "sid \<noteq> [] \<Longrightarrow> msg \<noteq> [] \<Longrightarrow> map_of s sid = Some c \<Longrightarrow> reply_outcome p = Inl e \<Longrightarrow>
   send_message toLowerCase s \<lparr>sessionId = Some sid, message = Some msg, stream = False\<rparr> p clk
     = (offline_reply toLowerCase (Some msg) clk,
        AList.update sid (c\<lparr>history := history c @ [Turn User msg]\<rparr>) s)"
  by (simp add: send_message_def falsy_def sendMessage_def Let_def)

lemma relay_chunks_eq:
  "relay_chunks sid chunks full written
     = (full @ concat chunks, written @ map (\<lambda>t. ChunkFrame t sid) chunks)"
  by (induction chunks arbitrary: full written) auto

lemma chunk_texts_append: "chunk_texts (fs @ gs) = chunk_texts fs @ chunk_texts gs"
  by (induction fs rule: chunk_texts.induct) auto

lemma complete_texts_append: "complete_texts (fs @ gs) = complete_texts fs @ complete_texts gs"
  by (induction fs rule: complete_texts.induct) auto

lemma chunk_texts_chunks [simp]: "chunk_texts (map (\<lambda>t. ChunkFrame t sid) chunks) = chunks"
  by (induction chunks) auto

lemma complete_texts_chunks [simp]: "complete_texts (map (\<lambda>t. ChunkFrame t sid) chunks) = []"
  by (induction chunks) auto

subsection \<open>The store under the cleanup\<close>

lemma map_of_cleanup_loop:
  "map_of (cleanup_loop now ks s) sid
     = (if sid \<in> set ks \<and> expired now sid then None else map_of s sid)"
proof (induction ks arbitrary: s)
  case Nil
  show ?case by simp
next
  case (Cons k ks)
  show ?case
    using Cons.IH [of s] Cons.IH [of "AList.delete k s"]
    by (auto simp: delete_conv')
qed

lemma map_of_absent_key: "sid \<notin> fst ` set s \<Longrightarrow> map_of s sid = None"
  by (simp add: map_of_eq_None_iff)

lemma map_of_cleanup:
  "map_of (cleanup now s) sid = (if expired now sid then None else map_of s sid)"
  by (auto simp: cleanup_def map_of_cleanup_loop map_of_eq_None_iff)

lemma cleanup_loop_keys: "fst ` set (cleanup_loop now ks s) \<subseteq> fst ` set s"
proof (induction ks arbitrary: s)
  case Nil
  show ?case by simp
next
  case (Cons k ks)
  have "fst ` set (AList.delete k s) \<subseteq> fst ` set s"
    by (auto simp: AList.delete_eq)
  with Cons.IH [of s] Cons.IH [of "AList.delete k s"] show ?case
    by (cases "expired now k") auto
qed

lemma expired_toString:
  "expired now (toString created) \<longleftrightarrow> int now - int created > oneHour"
  by (simp add: expired_def parseInt_toString)

subsection \<open>The history route\<close>

lemma get_history_found:
  "map_of s sid = Some c \<Longrightarrow>
   get_history s sid clk = JsonHistory (map (history_item clk) (enumerate 0 (history c)))"
  by (simp add: get_history_def getHistory_def)

lemma history_item_nth:
  "i < length ts \<Longrightarrow>
   map (history_item clk) (enumerate 0 ts) ! i
     = \<lparr>msg_id = i, msg_text = turn_text (ts ! i),
        msg_sender = (if turn_role (ts ! i) = User then ''user'' else ''bot''),
        msg_timestamp = clk i\<rparr>"
  by (simp add: history_item_def nth_enumerate_eq)

subsection \<open>Server runs: the identifiers issued and the keys stored\<close>

lemma start_session_eq:
  "start_session s clk
     = (JsonStarted (toString (clk 0))
          \<lparr>msg_id = clk 1, msg_text = welcomeMessage, msg_sender = ''bot'',
           msg_timestamp = clk 2\<rparr>,
        AList.update (toString (clk 0)) startChat s)"
  by (simp add: start_session_def Let_def)

lemma send_message_store:
  "snd (send_message toLowerCase s req p clk) = s
   \<or> (\<exists>sid c c'. map_of s sid = Some c \<and> snd (send_message toLowerCase s req p clk) = AList.update sid c' s)"
  by (auto simp: send_message_def Let_def split: option.splits prod.splits sum.splits)

lemma send_message_keys: "fst ` set (snd (send_message toLowerCase s req p clk)) = fst ` set s"
proof -
  consider "snd (send_message toLowerCase s req p clk) = s"
    | sid c c' where "map_of s sid = Some c"
        "snd (send_message toLowerCase s req p clk) = AList.update sid c' s"
    using send_message_store by blast
  then show ?thesis
  proof cases
    case 1
    then show ?thesis by simp
  next
    case 2
    from 2(1) have "sid \<in> fst ` set s" by (metis map_of_eq_None_iff option.distinct(1))
    with 2(2) show ?thesis by (auto simp: dom_update)
  qed
qed

lemma send_message_issues_nothing: "issued [fst (send_message toLowerCase s req p clk)] = []"
  by (auto simp: send_message_def Let_def offline_reply_def
      split: option.splits prod.splits sum.splits)

lemma get_history_issues_nothing: "issued [get_history s sid clk] = []"
  by (simp add: get_history_def split: option.splits)

lemma delete_session_issues_nothing: "issued [fst (delete_session s sid)] = []"
  by (simp add: delete_session_def)

lemma delete_session_keys: "fst ` set (snd (delete_session s sid)) \<subseteq> fst ` set s"
  by (auto simp: delete_session_def AList.delete_eq)

lemma cleanup_keys: "fst ` set (cleanup now s) \<subseteq> fst ` set s"
  by (simp add: cleanup_def cleanup_loop_keys)

lemma issued_append: "issued (rs @ rs') = issued rs @ issued rs'"
  by (induction rs rule: issued.induct) auto

lemma issued_handle: "issued (fst (handle toLowerCase s x)) = map toString (start_readings [x])"
proof (cases x)
  case (Start clk)
  then show ?thesis by (simp add: start_session_eq)
next
  case (Send req p clk)
  then show ?thesis
    using send_message_issues_nothing [of toLowerCase s req p clk] by (simp add: split_beta)
next
  case (History sid clk)
  then show ?thesis by (simp add: get_history_issues_nothing)
next
  case (Clear sid)
  then show ?thesis
    using delete_session_issues_nothing [of s sid] by (simp add: split_beta)
next
  case (Cleanup now)
  then show ?thesis by simp
qed

lemma start_readings_Cons: "start_readings (x # xs) = start_readings [x] @ start_readings xs"
  by (cases x) auto

lemma start_readings_append: "start_readings (xs @ ys) = start_readings xs @ start_readings ys"
proof (induction xs)
  case Nil
  show ?case by simp
next
  case (Cons x xs)
  then show ?case
    using start_readings_Cons [of x "xs @ ys"] start_readings_Cons [of x xs] by simp
qed

lemma issued_run: "issued (fst (run toLowerCase s xs)) = map toString (start_readings xs)"
proof (induction xs arbitrary: s)
  case Nil
  show ?case by simp
next
  case (Cons x xs)
  have "issued (fst (run toLowerCase s (x # xs)))
          = issued (fst (handle toLowerCase s x)) @ issued (fst (run toLowerCase (snd (handle toLowerCase s x)) xs))"
    by (simp add: split_beta issued_append)
  then show ?case
    using Cons.IH [of "snd (handle toLowerCase s x)"] start_readings_Cons [of x xs]
    by (simp add: issued_handle)
qed

lemma handle_keys:
  "fst ` set (snd (handle toLowerCase s x)) \<subseteq> fst ` set s \<union> toString ` set (start_readings [x])"
proof (cases x)
  case (Start clk)
  then show ?thesis by (auto simp: start_session_eq dom_update)
next
  case (Send req p clk)
  then show ?thesis using send_message_keys [of toLowerCase s req p clk] by (simp add: split_beta)
next
  case (History sid clk)
  then show ?thesis by simp
next
  case (Clear sid)
  then show ?thesis using delete_session_keys [of s sid] by (auto simp: split_beta)
next
  case (Cleanup now)
  then show ?thesis using cleanup_keys [of now s] by auto
qed

lemma run_keys:
  "fst ` set (snd (run toLowerCase s xs)) \<subseteq> fst ` set s \<union> toString ` set (start_readings xs)"
proof (induction xs arbitrary: s)
  case Nil
  show ?case by simp
next
  case (Cons x xs)
  have a: "snd (run toLowerCase s (x # xs)) = snd (run toLowerCase (snd (handle toLowerCase s x)) xs)"
    by (simp add: split_beta)
  have b: "fst ` set (snd (run toLowerCase (snd (handle toLowerCase s x)) xs))
      \<subseteq> fst ` set (snd (handle toLowerCase s x)) \<union> toString ` set (start_readings xs)"
    by (rule Cons.IH)
  have c: "fst ` set (snd (handle toLowerCase s x)) \<subseteq> fst ` set s \<union> toString ` set (start_readings [x])"
    by (rule handle_keys)
  have d: "set (start_readings (x # xs)) = set (start_readings [x]) \<union> set (start_readings xs)"
    using start_readings_Cons [of x xs] by simp
  show ?case
    unfolding a d using b c by blast
qed

lemma inj_toString: "inj toString"
  by (rule injI) (rule toString_inj)

subsection \<open>Identifiers that the store does not hold\<close>

lemma never_created_absent:
  "sid \<notin> toString ` set (start_readings xs) \<Longrightarrow> map_of (snd (run toLowerCase [] xs)) sid = None"
  using run_keys [of toLowerCase "[]" xs] by (intro map_of_absent_key) auto

lemma deleted_absent: "map_of (snd (delete_session s sid)) sid = None"
  by (simp add: delete_session_def delete_conv')

lemma swept_absent: "expired now sid \<Longrightarrow> map_of (cleanup now s) sid = None"
  by (simp add: map_of_cleanup)

subsection \<open>A sequence of successful sends\<close>

lemma run_sync_sends:
  assumes "sid \<noteq> []"
  shows "map_of s sid = Some c \<Longrightarrow> \<forall>(msg, reply, clk)\<in>set calls. msg \<noteq> [] \<Longrightarrow>
    map_of (snd (run toLowerCase s (sync_sends sid unused calls))) sid
      = Some (c\<lparr>history := history c
                 @ concat (map (\<lambda>(msg, reply, clk). [Turn User msg, Turn Assistant reply]) calls)\<rparr>)
    \<and> fst (run toLowerCase s (sync_sends sid unused calls))
      = map (\<lambda>(msg, reply, clk).
               JsonReply \<lparr>msg_id = clk 0, msg_text = reply, msg_sender = ''bot'',
                          msg_timestamp = clk 1\<rparr> False) calls"
proof (induction calls arbitrary: s c)
  case Nil
  then show ?case by (simp add: sync_sends_def)
next
  case (Cons call calls)
  obtain msg reply clk where call: "call = (msg, reply, clk)" by (cases call) auto
  let ?req = "\<lparr>sessionId = Some sid, message = Some msg, stream = False\<rparr>"
  let ?p = "\<lparr>reply_outcome = Inr reply, stream_outcome = unused\<rparr>"
  let ?c1 = "c\<lparr>history := history c @ [Turn User msg, Turn Assistant reply]\<rparr>"
  let ?s1 = "AList.update sid ?c1 s"
  from Cons.prems(2) call have msg: "msg \<noteq> []" and rest: "\<forall>(msg, reply, clk)\<in>set calls. msg \<noteq> []"
    by auto
  have step: "send_message toLowerCase s ?req ?p clk
      = (JsonReply \<lparr>msg_id = clk 0, msg_text = reply, msg_sender = ''bot'',
                    msg_timestamp = clk 1\<rparr> False, ?s1)"
    using assms msg Cons.prems(1) by (simp add: send_message_reply)
  have found: "map_of ?s1 sid = Some ?c1" by (simp add: update_conv')
  have unfold: "run toLowerCase s (sync_sends sid unused ((msg, reply, clk) # calls))
      = (fst (send_message toLowerCase s ?req ?p clk) # fst (run toLowerCase ?s1 (sync_sends sid unused calls)),
         snd (run toLowerCase ?s1 (sync_sends sid unused calls)))"
    by (simp add: sync_sends_def step split_beta)
  from Cons.IH [OF found rest] show ?case
    unfolding call by (simp add: unfold step)
qed

section \<open>The claims\<close>

subsection \<open>Missing message text\<close>

text \<open>
  Claim C9. A send-message request whose message field is present but is the empty string
  is rejected with the 400 missing-field error, exactly as a request without the field is
  (the check is by truthiness), whatever the session identifier and the streaming flag; the
  store is returned unchanged.
\<close>

theorem empty_message_is_missing_field:
  "send_message toLowerCase s \<lparr>sessionId = sid, message = Some [], stream = st\<rparr> p clk
     = (JsonError 400 ''Session ID and message are required'', s)
   \<and> send_message toLowerCase s \<lparr>sessionId = sid, message = Some [], stream = st\<rparr> p clk
     = send_message toLowerCase s \<lparr>sessionId = sid, message = None, stream = st\<rparr> p clk
   \<and> status (fst (send_message toLowerCase s \<lparr>sessionId = sid, message = Some [], stream = st\<rparr> p clk)) = 400"
  by (simp add: send_message_missing falsy_def)

theorem empty_message_is_missing_field_witness:
  "send_message toLowerCase_ascii [(''1000'', startChat)]
     \<lparr>sessionId = Some ''1000'', message = Some [], stream = False\<rparr>
     \<lparr>reply_outcome = Inr ''Do squats'', stream_outcome = StreamRefused\<rparr> (frozen_clock 2000)
   = (JsonError 400 ''Session ID and message are required'', [(''1000'', startChat)])"
  using empty_message_is_missing_field
    [where toLowerCase = toLowerCase_ascii, of "[(''1000'', startChat)]" "Some ''1000''" False
        "\<lparr>reply_outcome = Inr ''Do squats'', stream_outcome = StreamRefused\<rparr>"
        "frozen_clock 2000"]
  by simp

subsection \<open>The streaming relay\<close>

text \<open>
  Claim C2. A streaming send-message call on an existing session whose provider stream
  completes writes one chunk frame per chunk and then a single complete frame, the last
  frame of the stream; the concatenation of the chunk texts, in emission order, is the
  full text of that frame.
\<close>

theorem stream_chunks_concat_to_fullText:
  assumes "sid \<noteq> []" and "msg \<noteq> []" and "map_of s sid = Some c"
    and "stream_outcome p = StreamCompletes chunks"
  shows "\<exists>fs. fst (send_message toLowerCase s \<lparr>sessionId = Some sid, message = Some msg, stream = True\<rparr> p clk)
               = EventStream fs
           \<and> fs = map (\<lambda>t. ChunkFrame t sid) chunks @ [CompleteFrame (concat chunks) sid]
           \<and> complete_texts fs = [concat (chunk_texts fs)]
           \<and> last fs = CompleteFrame (concat (chunk_texts fs)) sid"
  using assms
  by (simp add: send_message_stream relay_chunks_eq chunk_texts_append complete_texts_append)

theorem stream_chunks_concat_to_fullText_witness:
  "fst (send_message toLowerCase_ascii [(''1000'', startChat)]
          \<lparr>sessionId = Some ''1000'', message = Some ''hi'', stream = True\<rparr>
          \<lparr>reply_outcome = Inl ProviderError,
           stream_outcome = StreamCompletes [''Do '', ''squats'']\<rparr> (frozen_clock 2000))
   = EventStream
       [ChunkFrame ''Do '' ''1000'', ChunkFrame ''squats'' ''1000'',
        CompleteFrame ''Do squats'' ''1000'']"
  using stream_chunks_concat_to_fullText
    [where toLowerCase = toLowerCase_ascii, of "''1000''" "''hi''" "[(''1000'', startChat)]" startChat
        "\<lparr>reply_outcome = Inl ProviderError,
          stream_outcome = StreamCompletes [''Do '', ''squats'']\<rparr>"
        "[''Do '', ''squats'']" "frozen_clock 2000"]
  by simp

subsection \<open>A failing provider stream\<close>

text \<open>
  Claim C3. When the provider stream of a streaming send-message call fails (the call is
  refused or the stream breaks after some chunks), the response is the event stream that
  was already opened, ending with the error frame and holding no complete frame, and the
  conversation stored for the session has the assistant turns it had before: the partial
  text is not appended. The conversation part rests on the proxy as the specification
  describes it.
\<close>

theorem stream_failure_is_terminal_error_event:
  assumes "sid \<noteq> []" and "msg \<noteq> []" and "map_of s sid = Some c"
    and "stream_fails (stream_outcome p)"
  shows "\<exists>fs c'. send_message toLowerCase s \<lparr>sessionId = Some sid, message = Some msg, stream = True\<rparr> p clk
               = (EventStream (fs @ [ErrorFrame ''Streaming failed'' sid]), AList.update sid c' s)
           \<and> complete_texts fs = []
           \<and> (\<forall>chunks. stream_outcome p = StreamBreaks chunks \<longrightarrow> chunk_texts fs = chunks)
           \<and> map_of (AList.update sid c' s) sid = Some c'
           \<and> assistant_turns c' = assistant_turns c"
proof (cases "stream_outcome p")
  case (StreamCompletes chunks)
  with assms(4) show ?thesis by simp
next
  case (StreamBreaks chunks)
  have "send_message toLowerCase s \<lparr>sessionId = Some sid, message = Some msg, stream = True\<rparr> p clk
      = (EventStream (map (\<lambda>t. ChunkFrame t sid) chunks @ [ErrorFrame ''Streaming failed'' sid]),
         AList.update sid (c\<lparr>history := history c @ [Turn User msg]\<rparr>) s)"
    using assms(1-3) StreamBreaks
    by (simp add: send_message_stream relay_chunks_eq sendMessageStream_def)
  moreover have "assistant_turns (c\<lparr>history := history c @ [Turn User msg]\<rparr>) = assistant_turns c"
    by (simp add: assistant_turns_def getHistory_def)
  ultimately show ?thesis
    using StreamBreaks by (auto simp: update_conv')
next
  case StreamRefused
  have "send_message toLowerCase s \<lparr>sessionId = Some sid, message = Some msg, stream = True\<rparr> p clk
      = (EventStream ([] @ [ErrorFrame ''Streaming failed'' sid]),
         AList.update sid (c\<lparr>history := history c @ [Turn User msg]\<rparr>) s)"
    using assms(1-3) StreamRefused
    by (simp add: send_message_stream sendMessageStream_def)
  moreover have "assistant_turns (c\<lparr>history := history c @ [Turn User msg]\<rparr>) = assistant_turns c"
    by (simp add: assistant_turns_def getHistory_def)
  ultimately show ?thesis
    using StreamRefused by (fastforce simp: update_conv')
qed

theorem stream_failure_is_terminal_error_event_witness:
  "\<exists>fs c'.
     send_message toLowerCase_ascii [(''1000'', startChat)]
        \<lparr>sessionId = Some ''1000'', message = Some ''hi'', stream = True\<rparr>
        \<lparr>reply_outcome = Inl ProviderError, stream_outcome = StreamBreaks [''Do '', ''squ'']\<rparr>
        (frozen_clock 2000)
      = (EventStream (fs @ [ErrorFrame ''Streaming failed'' ''1000'']),
         AList.update ''1000'' c' [(''1000'', startChat)])
     \<and> chunk_texts fs = [''Do '', ''squ'']
     \<and> assistant_turns c' = assistant_turns startChat"
  using stream_failure_is_terminal_error_event
    [where toLowerCase = toLowerCase_ascii, of "''1000''" "''hi''" "[(''1000'', startChat)]" startChat
        "\<lparr>reply_outcome = Inl ProviderError, stream_outcome = StreamBreaks [''Do '', ''squ'']\<rparr>"
        "frozen_clock 2000"]
  by auto

subsection \<open>The offline fallback\<close>

text \<open>
  The fallback reply is the canned text followed by \<^verbatim>\<open>" (Offline mode)"\<close>, so it is not
  the canned text itself; and the keyword tests are tried in order, so a message with
  both \<^verbatim>\<open>diet\<close> and \<^verbatim>\<open>workout\<close> gets the workout tip.
\<close>

theorem offline_text_is_not_the_canned_text_counterexample:
  "reply_text (fst (send_message toLowerCase_ascii [(''1000'', startChat)]
          \<lparr>sessionId = Some ''1000'', message = Some ''hello'', stream = False\<rparr>
          \<lparr>reply_outcome = Inl ProviderError, stream_outcome = StreamRefused\<rparr>
          (frozen_clock 2000)))
     \<noteq> Some fallback_default
   \<and> reply_text (fst (send_message toLowerCase_ascii [(''1000'', startChat)]
          \<lparr>sessionId = Some ''1000'', message = Some ''Diet or workout?'', stream = False\<rparr>
          \<lparr>reply_outcome = Inl ProviderError, stream_outcome = StreamRefused\<rparr>
          (frozen_clock 2000)))
     = Some (fallback_workout @ '' (Offline mode)'')"
proof -
  have a: "fallbackText toLowerCase_ascii (Some ''hello'') = fallback_default"
    by code_simp
  have b: "fallbackText toLowerCase_ascii (Some ''Diet or workout?'') = fallback_workout"
    by code_simp
  show ?thesis
    by (simp add: send_message_def falsy_def sendMessage_def startChat_def offline_reply_def a b)
qed

text \<open>
  Claim C5, as amended. When the provider call fails on the non-streaming path, the
  reply is flagged \<^verbatim>\<open>isOffline\<close> and its text is a function of the message as the runtime
  lowercases it, whatever the lowercasing function of the runtime is: the canned text
  chosen by the first test that succeeds (workout or exercise; else diet or nutrition;
  else motivation; else the default), followed by \<^verbatim>\<open>" (Offline mode)"\<close>.
\<close>

theorem offline_fallback_selection:
  assumes "sid \<noteq> []" and "msg \<noteq> []" and "map_of s sid = Some c"
    and "reply_outcome p = Inl e"
  shows "let lowerMessage = toLowerCase msg;
             has = (\<lambda>keyword. \<exists>before after. lowerMessage = before @ keyword @ after);
             canned =
               (if has ''workout'' \<or> has ''exercise'' then fallback_workout
                else if has ''diet'' \<or> has ''nutrition'' then fallback_diet
                else if has ''motivation'' then fallback_motivation
                else fallback_default)
         in fst (send_message toLowerCase s
                   \<lparr>sessionId = Some sid, message = Some msg, stream = False\<rparr> p clk)
              = JsonReply
                  \<lparr>msg_id = clk 0, msg_text = canned @ '' (Offline mode)'',
                   msg_sender = ''bot'', msg_timestamp = clk 1\<rparr>
                  True"
  using assms
  by (simp add: send_message_offline offline_reply_def fallbackText_def Let_def
      str_includes_iff)

theorem offline_fallback_selection_witness:
  "fst (send_message toLowerCase_ascii [(''1000'', startChat)]
          \<lparr>sessionId = Some ''1000'', message = Some ''Any NUTRITION advice?'', stream = False\<rparr>
          \<lparr>reply_outcome = Inl ProviderError, stream_outcome = StreamRefused\<rparr>
          (ticking_clock 2000))
     = JsonReply
         \<lparr>msg_id = 2000, msg_text = fallback_diet @ '' (Offline mode)'',
          msg_sender = ''bot'', msg_timestamp = 2001\<rparr>
         True
   \<and> fst (send_message toLowerCase_kelvin [(''1000'', startChat)]
          \<lparr>sessionId = Some ''1000'',
           message = Some (''WOR'' @ [CHR 0xE2, CHR 0x84, CHR 0xAA] @ ''OUT''), stream = False\<rparr>
          \<lparr>reply_outcome = Inl ProviderError, stream_outcome = StreamRefused\<rparr>
          (ticking_clock 2000))
     = JsonReply
         \<lparr>msg_id = 2000, msg_text = fallback_workout @ '' (Offline mode)'',
          msg_sender = ''bot'', msg_timestamp = 2001\<rparr>
         True"
proof
  have l: "toLowerCase_ascii ''Any NUTRITION advice?'' = ''any nutrition advice?''"
    by code_simp
  have k: "\<not> str_includes ''any nutrition advice?'' ''workout''"
    "\<not> str_includes ''any nutrition advice?'' ''exercise''"
    "\<not> str_includes ''any nutrition advice?'' ''diet''"
    "str_includes ''any nutrition advice?'' ''nutrition''"
    by code_simp+
  show "fst (send_message toLowerCase_ascii [(''1000'', startChat)]
          \<lparr>sessionId = Some ''1000'', message = Some ''Any NUTRITION advice?'', stream = False\<rparr>
          \<lparr>reply_outcome = Inl ProviderError, stream_outcome = StreamRefused\<rparr>
          (ticking_clock 2000))
     = JsonReply
         \<lparr>msg_id = 2000, msg_text = fallback_diet @ '' (Offline mode)'',
          msg_sender = ''bot'', msg_timestamp = 2001\<rparr>
         True"
    using offline_fallback_selection
      [where toLowerCase = toLowerCase_ascii,
        of "''1000''" "''Any NUTRITION advice?''" "[(''1000'', startChat)]" startChat
          "\<lparr>reply_outcome = Inl ProviderError, stream_outcome = StreamRefused\<rparr>"
          ProviderError "ticking_clock 2000"]
      k
    by (simp add: l Let_def ticking_clock_def flip: str_includes_iff)
next
  let ?msg = "''WOR'' @ [CHR 0xE2, CHR 0x84, CHR 0xAA] @ ''OUT''"
  have l: "toLowerCase_kelvin ?msg = ''workout''"
    by code_simp
  have k: "str_includes ''workout'' ''workout''"
    by code_simp
  have m: "?msg \<noteq> []" by simp
  show "fst (send_message toLowerCase_kelvin [(''1000'', startChat)]
          \<lparr>sessionId = Some ''1000'', message = Some ?msg, stream = False\<rparr>
          \<lparr>reply_outcome = Inl ProviderError, stream_outcome = StreamRefused\<rparr>
          (ticking_clock 2000))
     = JsonReply
         \<lparr>msg_id = 2000, msg_text = fallback_workout @ '' (Offline mode)'',
          msg_sender = ''bot'', msg_timestamp = 2001\<rparr>
         True"
    using offline_fallback_selection
      [where toLowerCase = toLowerCase_kelvin,
        of "''1000''" ?msg "[(''1000'', startChat)]" startChat
          "\<lparr>reply_outcome = Inl ProviderError, stream_outcome = StreamRefused\<rparr>"
          ProviderError "ticking_clock 2000"]
      k
    by (simp only: l Let_def flip: str_includes_iff) (simp add: ticking_clock_def)
qed

subsection \<open>The cleanup of old sessions\<close>

text \<open>
  Claim C7. The cleanup at time \<open>now\<close> removes exactly the sessions whose identifier parses
  to a creation time older than \<open>now - oneHour\<close> and keeps every other session as it is.
  A session created at time \<open>T\<close>, whose identifier is the decimal rendering of \<open>T\<close>, is
  still retrievable after a cleanup at \<open>T + oneHour - 1\<close>, and is not retrievable after a
  cleanup at \<open>T + oneHour + 1\<close>.
\<close>

theorem cleanup_removes_exactly_the_expired:
  "map_of (cleanup now s) sid
     = (if \<exists>created. parseInt sid = Some created \<and> created < int now - oneHour
        then None else map_of s sid)
   \<and> (map_of s (toString T) = Some c \<longrightarrow>
        map_of (cleanup (T + nat oneHour - 1) s) (toString T) = Some c
        \<and> get_history (cleanup (T + nat oneHour - 1) s) (toString T) clk
            = get_history s (toString T) clk)
   \<and> map_of (cleanup (T + nat oneHour + 1) s) (toString T) = None
   \<and> get_history (cleanup (T + nat oneHour + 1) s) (toString T) clk
       = JsonError 404 ''Chat session not found''"
proof -
  have general: "map_of (cleanup now s) sid
     = (if \<exists>created. parseInt sid = Some created \<and> created < int now - oneHour
        then None else map_of s sid)"
    by (auto simp: map_of_cleanup expired_def split: option.splits)
  have before: "\<not> expired (T + nat oneHour - 1) (toString T)"
    by (simp add: expired_toString oneHour_def)
  have after: "expired (T + nat oneHour + 1) (toString T)"
    by (simp add: expired_toString oneHour_def)
  have kept: "map_of (cleanup (T + nat oneHour - 1) s) (toString T) = map_of s (toString T)"
    using before by (simp add: map_of_cleanup)
  have gone: "map_of (cleanup (T + nat oneHour + 1) s) (toString T) = None"
    using after by (simp add: map_of_cleanup)
  show ?thesis
    using general kept gone by (simp add: get_history_def)
qed

theorem cleanup_removes_exactly_the_expired_witness:
  "map_of (cleanup (1000 + 3600000 - 1) [(''1000'', startChat)]) ''1000'' = Some startChat
   \<and> map_of (cleanup (1000 + 3600000 + 1) [(''1000'', startChat)]) ''1000'' = None"
proof -
  have t: "toString 1000 = ''1000''" by code_simp
  have h: "nat oneHour = 3600000" by (simp add: oneHour_def)
  show ?thesis
    using cleanup_removes_exactly_the_expired
      [of 0 "[(''1000'', startChat)]" "''1000''" 1000 startChat "frozen_clock 0"]
    by (simp add: t h)
qed

subsection \<open>The timestamps of a history response\<close>

text \<open>
  The history route reads the clock once for every turn that it maps, so two turns of one
  response carry different timestamps when the clock advances between the two reads.
\<close>

theorem history_timestamps_not_shared_counterexample:
  "get_history
     (snd (run toLowerCase_ascii []
        [Start (frozen_clock 1000),
         Send \<lparr>sessionId = Some ''1000'', message = Some ''hi'', stream = False\<rparr>
              \<lparr>reply_outcome = Inr ''Do squats'', stream_outcome = StreamRefused\<rparr>
              (frozen_clock 2000)]))
     ''1000'' (ticking_clock 5000)
   = JsonHistory
       [\<lparr>msg_id = 0, msg_text = ''hi'', msg_sender = ''user'', msg_timestamp = 5000\<rparr>,
        \<lparr>msg_id = 1, msg_text = ''Do squats'', msg_sender = ''bot'', msg_timestamp = 5001\<rparr>]"
  by code_simp

text \<open>
  Claim C10, as amended. In every history response the identifier of a turn is its index
  in the history list, its sender and text are those of the stored turn, and its
  timestamp is the clock reading taken when that turn is mapped while the request is
  handled, whatever the time at which the turn was created; the turns of one response
  share one timestamp when the clock does not advance during the mapping.
\<close>

theorem history_items_indexed_and_stamped_when_read:
  assumes "map_of s sid = Some c"
  shows "\<exists>items. get_history s sid clk = JsonHistory items
           \<and> length items = length (getHistory c)
           \<and> (\<forall>i<length items.
                 msg_id (items ! i) = i
                 \<and> msg_timestamp (items ! i) = clk i
                 \<and> (msg_sender (items ! i), msg_text (items ! i)) = shown (getHistory c ! i))
           \<and> ((\<forall>i<length items. clk i = clk 0) \<longrightarrow>
                 (\<forall>m\<in>set items. msg_timestamp m = clk 0))"
proof -
  let ?items = "map (history_item clk) (enumerate 0 (history c))"
  have len: "length ?items = length (history c)" by simp
  have each: "\<forall>i<length ?items.
                 msg_id (?items ! i) = i
                 \<and> msg_timestamp (?items ! i) = clk i
                 \<and> (msg_sender (?items ! i), msg_text (?items ! i)) = shown (history c ! i)"
    using history_item_nth [of _ "history c" clk] by (simp add: shown_def)
  have shared: "(\<forall>i<length ?items. clk i = clk 0) \<longrightarrow>
                 (\<forall>m\<in>set ?items. msg_timestamp m = clk 0)"
  proof (intro impI ballI)
    fix m
    assume still: "\<forall>i<length ?items. clk i = clk 0" and "m \<in> set ?items"
    then obtain i where i: "i < length ?items" "m = ?items ! i"
      by (metis in_set_conv_nth)
    with each have "msg_timestamp m = clk i" by blast
    with still i show "msg_timestamp m = clk 0" by simp
  qed
  have "get_history s sid clk = JsonHistory ?items"
    using assms by (rule get_history_found)
  moreover note len each shared
  ultimately show ?thesis
    unfolding getHistory_def by (intro exI [of _ ?items] conjI)
qed

theorem history_items_indexed_and_stamped_when_read_witness:
  "(\<exists>items. get_history [(''1000'', \<lparr>history = [Turn User ''hi'', Turn Assistant ''Do squats'']\<rparr>)]
              ''1000'' (ticking_clock 5000) = JsonHistory items
     \<and> length items = 2
     \<and> msg_id (items ! 1) = 1 \<and> msg_timestamp (items ! 1) = 5001
     \<and> msg_sender (items ! 1) = ''bot'')
   \<and> (\<exists>items. get_history [(''1000'', \<lparr>history = [Turn User ''hi'', Turn Assistant ''Do squats'']\<rparr>)]
              ''1000'' (frozen_clock 5000) = JsonHistory items
     \<and> (\<forall>m\<in>set items. msg_timestamp m = 5000))"
proof
  let ?c = "\<lparr>history = [Turn User ''hi'', Turn Assistant ''Do squats'']\<rparr>"
  from history_items_indexed_and_stamped_when_read
    [of "[(''1000'', ?c)]" "''1000''" ?c "ticking_clock 5000"]
  obtain items where
    g: "get_history [(''1000'', ?c)] ''1000'' (ticking_clock 5000) = JsonHistory items"
    and l: "length items = length (getHistory ?c)"
    and e: "\<forall>i<length items.
                 msg_id (items ! i) = i
                 \<and> msg_timestamp (items ! i) = ticking_clock 5000 i
                 \<and> (msg_sender (items ! i), msg_text (items ! i)) = shown (getHistory ?c ! i)"
    by auto
  from l have l2: "length items = 2" by (simp add: getHistory_def)
  with e have "msg_id (items ! 1) = 1 \<and> msg_timestamp (items ! 1) = ticking_clock 5000 1
     \<and> (msg_sender (items ! 1), msg_text (items ! 1)) = shown (getHistory ?c ! 1)"
    by simp
  then show "\<exists>items. get_history [(''1000'', ?c)] ''1000'' (ticking_clock 5000) = JsonHistory items
     \<and> length items = 2
     \<and> msg_id (items ! 1) = 1 \<and> msg_timestamp (items ! 1) = 5001
     \<and> msg_sender (items ! 1) = ''bot''"
    using g l2 by (simp add: ticking_clock_def shown_def getHistory_def)
next
  let ?c = "\<lparr>history = [Turn User ''hi'', Turn Assistant ''Do squats'']\<rparr>"
  from history_items_indexed_and_stamped_when_read
    [of "[(''1000'', ?c)]" "''1000''" ?c "frozen_clock 5000"]
  obtain items where
    g: "get_history [(''1000'', ?c)] ''1000'' (frozen_clock 5000) = JsonHistory items"
    and s: "(\<forall>i<length items. frozen_clock 5000 i = frozen_clock 5000 0) \<longrightarrow>
                 (\<forall>m\<in>set items. msg_timestamp m = frozen_clock 5000 0)"
    by auto
  have "\<forall>i<length items. frozen_clock 5000 i = frozen_clock 5000 0"
    by (simp add: frozen_clock_def)
  with s have "\<forall>m\<in>set items. msg_timestamp m = 5000"
    by (simp add: frozen_clock_def)
  with g show "\<exists>items. get_history [(''1000'', ?c)] ''1000'' (frozen_clock 5000) = JsonHistory items
     \<and> (\<forall>m\<in>set items. msg_timestamp m = 5000)"
    by blast
qed

subsection \<open>Session identifiers\<close>

text \<open>
  The identifier of a new session is the decimal rendering of the clock reading, so two
  start requests handled within the same millisecond are given the same identifier.
\<close>

theorem session_identifier_repeats_counterexample:
  "issued (fst (run toLowerCase_ascii [] [Start (frozen_clock 1000), Start (frozen_clock 1000)]))
     = [''1000'', ''1000'']"
  by code_simp

text \<open>
  Claim C8, as amended. Every start-session call returns the decimal rendering of the
  millisecond clock reading taken at the call. The identifier differs from every
  identifier issued before exactly when that reading differs from the readings of all
  earlier start calls; the identifiers issued in a run are pairwise different exactly when
  those readings are.
\<close>

theorem session_identifier_is_the_clock_reading:
  "issued (fst (run toLowerCase s (xs @ [Start clk]))) = issued (fst (run toLowerCase s xs)) @ [toString (clk 0)]
   \<and> (toString (clk 0) \<in> set (issued (fst (run toLowerCase s xs))) \<longleftrightarrow> clk 0 \<in> set (start_readings xs))
   \<and> (distinct (issued (fst (run toLowerCase s xs))) \<longleftrightarrow> distinct (start_readings xs))"
proof -
  have "issued (fst (run toLowerCase s (xs @ [Start clk]))) = issued (fst (run toLowerCase s xs)) @ [toString (clk 0)]"
    by (simp add: issued_run start_readings_append)
  moreover have "toString (clk 0) \<in> set (issued (fst (run toLowerCase s xs)))
      \<longleftrightarrow> clk 0 \<in> set (start_readings xs)"
    using toString_inj by (auto simp: issued_run)
  moreover have "distinct (issued (fst (run toLowerCase s xs))) \<longleftrightarrow> distinct (start_readings xs)"
    using inj_toString by (simp add: issued_run distinct_map inj_on_def inj_def)
  ultimately show ?thesis by blast
qed

theorem session_identifier_is_the_clock_reading_witness:
  "issued (fst (run toLowerCase_ascii [] ([Start (frozen_clock 1000)] @ [Start (frozen_clock 1001)])))
     = [''1000'', ''1001'']
   \<and> distinct (issued (fst (run toLowerCase_ascii [] [Start (frozen_clock 1000)])))"
proof -
  have t: "toString 1000 = ''1000''" "toString 1001 = ''1001''" by code_simp+
  show ?thesis
    using session_identifier_is_the_clock_reading
      [where toLowerCase = toLowerCase_ascii, of "[]" "[Start (frozen_clock 1000)]" "frozen_clock 1001"]
    by (simp add: start_session_eq frozen_clock_def t)
qed

subsection \<open>Unknown sessions\<close>

text \<open>
  Claim C6. A send-message call that carries a message text and names an identifier that
  no start request of the run issued, or that the delete route has just removed, or that
  the cleanup has just removed as expired, is answered with the 404 not-found error, with
  or without the streaming flag, and the store is returned unchanged.
\<close>

theorem unknown_session_is_not_found:
  assumes "sid \<noteq> []" and "msg \<noteq> []"
    and "(\<exists>xs. s = snd (run toLowerCase [] xs) \<and> sid \<notin> toString ` set (start_readings xs))
         \<or> (\<exists>s0. s = snd (delete_session s0 sid))
         \<or> (\<exists>s0 now. s = cleanup now s0 \<and> expired now sid)"
  shows "send_message toLowerCase s \<lparr>sessionId = Some sid, message = Some msg, stream = st\<rparr> p clk
           = (JsonError 404 ''Chat session not found. Please start a new session.'', s)
         \<and> status (fst (send_message toLowerCase s \<lparr>sessionId = Some sid, message = Some msg, stream = st\<rparr>
                          p clk)) = 404"
proof -
  from assms(3) have "map_of s sid = None"
    by (auto simp: never_created_absent deleted_absent swept_absent)
  with assms(1,2) show ?thesis by (simp add: send_message_not_found)
qed

theorem unknown_session_is_not_found_witness:
  "send_message toLowerCase_ascii (snd (run toLowerCase_ascii [] [Start (frozen_clock 1000)]))
      \<lparr>sessionId = Some ''999'', message = Some ''hi'', stream = False\<rparr>
      \<lparr>reply_outcome = Inr ''Do squats'', stream_outcome = StreamRefused\<rparr> (frozen_clock 2000)
     = (JsonError 404 ''Chat session not found. Please start a new session.'',
        [(''1000'', startChat)])
   \<and> send_message toLowerCase_ascii (snd (delete_session [(''1000'', startChat)] ''1000''))
      \<lparr>sessionId = Some ''1000'', message = Some ''hi'', stream = True\<rparr>
      \<lparr>reply_outcome = Inr ''Do squats'', stream_outcome = StreamRefused\<rparr> (frozen_clock 2000)
     = (JsonError 404 ''Chat session not found. Please start a new session.'', [])
   \<and> send_message toLowerCase_ascii (cleanup 3601001 [(''1000'', startChat)])
      \<lparr>sessionId = Some ''1000'', message = Some ''hi'', stream = False\<rparr>
      \<lparr>reply_outcome = Inr ''Do squats'', stream_outcome = StreamRefused\<rparr> (frozen_clock 3601002)
     = (JsonError 404 ''Chat session not found. Please start a new session.'', [])"
proof -
  let ?p = "\<lparr>reply_outcome = Inr ''Do squats'', stream_outcome = StreamRefused\<rparr>"
  have t: "toString 1000 = ''1000''" by code_simp
  have r: "snd (run toLowerCase_ascii [] [Start (frozen_clock 1000)]) = [(''1000'', startChat)]"
    by (simp add: start_session_eq frozen_clock_def t)
  have d: "snd (delete_session [(''1000'', startChat)] ''1000'') = []"
    by (simp add: delete_session_def)
  have e: "expired 3601001 ''1000''"
    using expired_toString [of 3601001 1000] by (simp add: t oneHour_def)
  have c: "cleanup 3601001 [(''1000'', startChat)] = []"
    using e by (simp add: cleanup_def)
  have "''999'' \<notin> toString ` set (start_readings [Start (frozen_clock 1000)])"
    by (simp add: frozen_clock_def t)
  then have 1: "send_message toLowerCase_ascii (snd (run toLowerCase_ascii [] [Start (frozen_clock 1000)]))
      \<lparr>sessionId = Some ''999'', message = Some ''hi'', stream = False\<rparr> ?p (frozen_clock 2000)
     = (JsonError 404 ''Chat session not found. Please start a new session.'',
        snd (run toLowerCase_ascii [] [Start (frozen_clock 1000)]))"
    using unknown_session_is_not_found
      [where toLowerCase = toLowerCase_ascii, of "''999''" "''hi''" "snd (run toLowerCase_ascii [] [Start (frozen_clock 1000)])" False ?p
          "frozen_clock 2000"]
    by blast
  have 2: "send_message toLowerCase_ascii (snd (delete_session [(''1000'', startChat)] ''1000''))
      \<lparr>sessionId = Some ''1000'', message = Some ''hi'', stream = True\<rparr> ?p (frozen_clock 2000)
     = (JsonError 404 ''Chat session not found. Please start a new session.'',
        snd (delete_session [(''1000'', startChat)] ''1000''))"
    using unknown_session_is_not_found
      [where toLowerCase = toLowerCase_ascii, of "''1000''" "''hi''" "snd (delete_session [(''1000'', startChat)] ''1000'')" True ?p
          "frozen_clock 2000"]
    by blast
  have 3: "send_message toLowerCase_ascii (cleanup 3601001 [(''1000'', startChat)])
      \<lparr>sessionId = Some ''1000'', message = Some ''hi'', stream = False\<rparr> ?p
      (frozen_clock 3601002)
     = (JsonError 404 ''Chat session not found. Please start a new session.'',
        cleanup 3601001 [(''1000'', startChat)])"
    using unknown_session_is_not_found
      [where toLowerCase = toLowerCase_ascii, of "''1000''" "''hi''" "cleanup 3601001 [(''1000'', startChat)]" False ?p
          "frozen_clock 3601002"] e
    by blast
  show ?thesis
    using 1 2 3 by (simp only: r d c)
qed

subsection \<open>The history after successful sends\<close>

text \<open>
  Claim C1. After a sequence of non-streaming send-message calls on one session whose
  provider calls all succeed, each call having returned the provider's reply, the history
  route returns the turns that the session had before followed, in call order, by the
  user turn with the text sent and the assistant turn with the reply of every call; for a
  session that had no turns these are exactly twice as many turns as there were calls.
  The conversation is the proxy as the specification describes it.
\<close>

theorem history_after_successful_sends:
  assumes "sid \<noteq> []" and "map_of s sid = Some c"
    and "\<forall>(msg, reply, clk)\<in>set calls. msg \<noteq> []"
  shows "\<exists>items.
           get_history (snd (run toLowerCase s (sync_sends sid unused calls))) sid hclk = JsonHistory items
           \<and> map (\<lambda>m. (msg_sender m, msg_text m)) items
               = map shown (getHistory c)
                 @ concat (map (\<lambda>(msg, reply, clk). [(''user'', msg), (''bot'', reply)]) calls)
           \<and> (getHistory c = [] \<longrightarrow> length items = 2 * length calls)
           \<and> map reply_text (fst (run toLowerCase s (sync_sends sid unused calls)))
               = map (\<lambda>(msg, reply, clk). Some reply) calls"
proof -
  let ?new = "concat (map (\<lambda>(msg, reply, clk). [Turn User msg, Turn Assistant reply]) calls)"
  let ?c' = "c\<lparr>history := history c @ ?new\<rparr>"
  let ?items = "map (history_item hclk) (enumerate 0 (history ?c'))"
  from run_sync_sends [OF assms, of toLowerCase unused]
  have stored: "map_of (snd (run toLowerCase s (sync_sends sid unused calls))) sid = Some ?c'"
    and replies: "fst (run toLowerCase s (sync_sends sid unused calls))
      = map (\<lambda>(msg, reply, clk).
               JsonReply \<lparr>msg_id = clk 0, msg_text = reply, msg_sender = ''bot'',
                          msg_timestamp = clk 1\<rparr> False) calls"
    by auto
  have got: "get_history (snd (run toLowerCase s (sync_sends sid unused calls))) sid hclk = JsonHistory ?items"
    using stored by (rule get_history_found)
  have proj: "map (\<lambda>m. (msg_sender m, msg_text m)) (map (history_item hclk) (enumerate n ts))
      = map shown ts" for n ts
    by (induction ts arbitrary: n) (simp_all add: history_item_def shown_def)
  have new: "map shown ?new
      = concat (map (\<lambda>(msg, reply, clk). [(''user'', msg), (''bot'', reply)]) calls)"
    by (induction calls) (auto simp: shown_def)
  have len: "length ?new = 2 * length calls"
    by (induction calls) auto
  have a: "map (\<lambda>m. (msg_sender m, msg_text m)) ?items
      = map shown (getHistory c)
        @ concat (map (\<lambda>(msg, reply, clk). [(''user'', msg), (''bot'', reply)]) calls)"
    using proj [of 0 "history c @ ?new"] new by (simp add: getHistory_def)
  have b: "getHistory c = [] \<longrightarrow> length ?items = 2 * length calls"
    by (simp add: len getHistory_def)
  have c: "map reply_text (fst (run toLowerCase s (sync_sends sid unused calls)))
      = map (\<lambda>(msg, reply, clk). Some reply) calls"
    by (simp add: replies split_beta)
  from got a b c show ?thesis by blast
qed

theorem history_after_successful_sends_witness:
  "\<exists>items.
     get_history
       (snd (run toLowerCase_ascii [(''1000'', startChat)]
          (sync_sends ''1000'' StreamRefused
             [(''hi'', ''Do squats'', frozen_clock 2000), (''more'', ''Plank'', frozen_clock 3000)])))
       ''1000'' (frozen_clock 4000) = JsonHistory items
     \<and> map (\<lambda>m. (msg_sender m, msg_text m)) items
         = [(''user'', ''hi''), (''bot'', ''Do squats''), (''user'', ''more''), (''bot'', ''Plank'')]
     \<and> length items = 4"
  using history_after_successful_sends
    [where toLowerCase = toLowerCase_ascii, of "''1000''" "[(''1000'', startChat)]" startChat
        "[(''hi'', ''Do squats'', frozen_clock 2000), (''more'', ''Plank'', frozen_clock 3000)]"
        StreamRefused "frozen_clock 4000"]
  by (auto simp: startChat_def getHistory_def shown_def)

end
